theory Spec2Isabelle
  imports Complex_Main "HOL-Library.Multiset"
begin

text \<open>
  The development embeds the correction stages, the geometry resolver, the
  calibration fetcher and the defect-map compositor of \<^verbatim>\<open>eis_prep.py\<close> and
  proves their properties.  The first part holds the embedding, the second
  the proofs.
\<close>

chapter \<open>The embedding of eis_prep.py\<close>

section \<open>Arrays, the store and exceptions\<close>

text \<open>
  A numpy array is a nested list, outermost axis first.  Detector counts and
  error values are finite floats, taken as exact rationals.
\<close>

type_synonym 'a arr2 = "'a list list"
type_synonym 'a arr3 = "'a list list list"

definition map3 :: "('a \<Rightarrow> 'b) \<Rightarrow> 'a arr3 \<Rightarrow> 'b arr3" where
  "map3 f = map (map (map f))"

text \<open>Two 3-D arrays have the same shape: numpy requires it of a boolean index.\<close>

definition same_shape :: "'a arr3 \<Rightarrow> 'b arr3 \<Rightarrow> bool" where
  "same_shape a b = list_all2 (list_all2 (\<lambda>x y. length x = length y)) a b"

text \<open>\<^verbatim>\<open>a[m] = v\<close> for a boolean mask \<open>m\<close> of the shape of \<open>a\<close> and a scalar \<open>v\<close>.\<close>

definition mask_set :: "bool arr3 \<Rightarrow> 'a \<Rightarrow> 'a arr3 \<Rightarrow> 'a arr3" where
  "mask_set m v a = map2 (map2 (map2 (\<lambda>b x. if b then v else x))) m a"

text \<open>\<^verbatim>\<open>__missing__ = -100\<close>\<close>

definition missing :: rat where
  "missing = - 100"

text \<open>
  The exceptions of the modelled paths.  \<open>NanPedestal\<close> is not a Python
  exception: numpy's median of an empty selection is nan and subtracting it
  turns every count into nan, which the rational counts of this model cannot
  hold, so the model stops there.
\<close>

datatype exn = IndexError | KeyError string | ValueError | ReadError | NanPedestal

text \<open>
  The stages mutate the arrays of a channel record in place and return
  nothing.  A channel record \<^verbatim>\<open>(data, error, index)\<close> therefore holds the
  addresses of its two arrays, and a stage maps the store of arrays to the
  store after it (or to the exception it raises).
\<close>

record channel =
  data :: nat
  err :: nat
  idx :: nat

type_synonym heap = "nat \<Rightarrow> rat arr3"

text \<open>The addresses a list of channel records uses, data before error.\<close>

definition refs :: "channel list \<Rightarrow> nat list" where
  "refs cs = concat (map (\<lambda>c. [data c, err c]) cs)"

section \<open>Invalid-pixel stage: \<^verbatim>\<open>_remove_zeros_saturated\<close>\<close>

text \<open>
  \<^verbatim>\<open>
  for data, err, _ in data_and_errors:
      zeros = data <= 0
      saturated = data >= 16383
      zeros[saturated] = True
      data[zeros] = 0
      err[zeros] = __missing__
  \<close>
  The last assignment raises IndexError when \<open>err\<close> has another shape than
  the mask.
\<close>

definition remove_zeros_saturated_body :: "channel \<Rightarrow> heap \<Rightarrow> exn + heap" where
  "remove_zeros_saturated_body c h =
     (let zeros = map3 (\<lambda>x. x \<le> 0) (h (data c));
          saturated = map3 (\<lambda>x. x \<ge> 16383) (h (data c));
          zeros = mask_set saturated True zeros;
          h1 = h(data c := mask_set zeros 0 (h (data c)))
      in if same_shape zeros (h1 (err c))
         then Inr (h1(err c := mask_set zeros missing (h1 (err c))))
         else Inl IndexError)"

fun remove_zeros_saturated :: "channel list \<Rightarrow> heap \<Rightarrow> exn + heap" where
  "remove_zeros_saturated [] h = Inr h"
| "remove_zeros_saturated (c # cs) h =
     (case remove_zeros_saturated_body c h of
        Inl e \<Rightarrow> Inl e
      | Inr h' \<Rightarrow> remove_zeros_saturated cs h')"

text \<open>What the stage does to one count, and to the arrays of one record.\<close>

definition invalid :: "rat \<Rightarrow> bool" where
  "invalid x = (x \<le> 0 \<or> x \<ge> 16383)"

definition cleaned :: "rat arr3 \<Rightarrow> rat arr3" where
  "cleaned d = map3 (\<lambda>x. if invalid x then 0 else x) d"

definition marked :: "rat arr3 \<Rightarrow> rat arr3 \<Rightarrow> rat arr3" where
  "marked d e = mask_set (map3 invalid d) missing e"

section \<open>Python helpers: \<^verbatim>\<open>str\<close>, slices, the median\<close>

text \<open>\<^verbatim>\<open>str(n)\<close> of a non-negative integer: its decimal digits.\<close>

definition digit_char :: "nat \<Rightarrow> char" where
  "digit_char n = ''0123456789'' ! (n mod 10)"

fun str_nat :: "nat \<Rightarrow> string" where
  "str_nat n = (if n < 10 then [digit_char n] else str_nat (n div 10) @ [digit_char n])"

declare str_nat.simps [simp del]

text \<open>
  \<^verbatim>\<open>xs[lo:hi]\<close>: a negative bound counts from the end, and both bounds are
  clipped to the list.
\<close>

definition slice_bound :: "int \<Rightarrow> nat \<Rightarrow> nat" where
  "slice_bound i n = (if i < 0 then nat (max (i + int n) 0) else min (nat i) n)"

definition py_slice :: "int \<Rightarrow> int \<Rightarrow> 'a list \<Rightarrow> 'a list" where
  "py_slice lo hi xs =
     (let l = slice_bound lo (length xs); u = slice_bound hi (length xs)
      in take (u - l) (drop l xs))"

text \<open>
  \<^verbatim>\<open>np.median\<close> of the flattened values: the middle value of the sorted
  values, or the mean of the two middle ones; \<open>None\<close> stands for the nan of an
  empty selection.
\<close>

definition median :: "rat list \<Rightarrow> rat option" where
  "median xs =
     (if xs = [] then None
      else let s = sort xs; n = length s
           in Some (if odd n then s ! (n div 2)
                    else (s ! (n div 2 - 1) + s ! (n div 2)) / 2))"

section \<open>Dark-current stage: \<^verbatim>\<open>_remove_dark_current\<close>\<close>

text \<open>
  The observation metadata is a dictionary from keys to numbers; a lookup of
  an absent key raises KeyError.
\<close>

type_synonym meta = "string \<Rightarrow> int option"

definition meta_get :: "meta \<Rightarrow> string \<Rightarrow> exn + int" where
  "meta_get m k = (case m k of None \<Rightarrow> Inl (KeyError k) | Some v \<Rightarrow> Inr v)"

text \<open>
  \<^verbatim>\<open>
  ccd_x_start = meta['TDETX' + str(window)]
  if ccd_x_start == 1024:   pixels = (944, 989)
  elif ccd_x_start == 3072: pixels = (926, 971)
  else:                     pixels = (39, 84)
  quiet_vals = data[:, :, pixels[0]:pixels[1]]
  data -= np.median(quiet_vals)
  \<close>
  The argument \<open>d\<close> is the address of the array the caller passed; the
  subtraction is in place.
\<close>

definition remove_dark_current_full_ccd :: "nat \<Rightarrow> meta \<Rightarrow> nat \<Rightarrow> heap \<Rightarrow> exn + heap" where
  "remove_dark_current_full_ccd d m window h =
     (case meta_get m (''TDETX'' @ str_nat window) of
        Inl e \<Rightarrow> Inl e
      | Inr ccd_x_start \<Rightarrow>
          (let pixels = (if ccd_x_start = 1024 then (944, 989)
                         else if ccd_x_start = 3072 then (926, 971)
                         else (39, 84));
               quiet_vals = map (map (py_slice (fst pixels) (snd pixels))) (h d)
           in case median (concat (concat quiet_vals)) of
                None \<Rightarrow> Inl NanPedestal
              | Some v \<Rightarrow> Inr (h(d := map3 (\<lambda>x. x - v) (h d)))))"

text \<open>
  \<^verbatim>\<open>
  flatarr = data.flatten()
  flatarr.sort()
  low_value = np.median(flatarr[:0.02 * flatarr.shape[0]])
  data -= low_value
  \<close>
  The float bound of the slice is truncated to an integer, which for a
  length \<open>n\<close> is \<open>n div 50\<close>.
\<close>

definition remove_dark_current_part_ccd :: "nat \<Rightarrow> heap \<Rightarrow> exn + heap" where
  "remove_dark_current_part_ccd d h =
     (let flatarr = sort (concat (concat (h d)));
          low_value = median (take (length flatarr div 50) flatarr)
      in case low_value of
           None \<Rightarrow> Inl NanPedestal
         | Some v \<Rightarrow> Inr (h(d := map3 (\<lambda>x. x - v) (h d))))"

text \<open>
  \<^verbatim>\<open>
  retain = kwargs.pop('retain', False)
  for data, err, idx in data_and_errors:
      print idx
      ccd_xwidth = meta['TDETXW' + str(idx)]
      if ccd_xwidth == 1024:
          _remove_dark_current_full_ccd(data, meta, idx)
      else:
          _remove_dark_current_part_ccd(data)
      if not retain:
          negatives = data <= 0
          data[negatives] = 0
          err[negatives] = __missing__
  \<close>
  The printed line is not modelled.
\<close>

definition remove_dark_current_body :: "meta \<Rightarrow> bool \<Rightarrow> channel \<Rightarrow> heap \<Rightarrow> exn + heap" where
  "remove_dark_current_body m retain c h =
     (case meta_get m (''TDETXW'' @ str_nat (idx c)) of
        Inl e \<Rightarrow> Inl e
      | Inr ccd_xwidth \<Rightarrow>
          (case (if ccd_xwidth = 1024
                 then remove_dark_current_full_ccd (data c) m (idx c) h
                 else remove_dark_current_part_ccd (data c) h) of
             Inl e \<Rightarrow> Inl e
           | Inr h1 \<Rightarrow>
               if \<not> retain then
                 (let negatives = map3 (\<lambda>x. x \<le> 0) (h1 (data c));
                      h2 = h1(data c := mask_set negatives 0 (h1 (data c)))
                  in if same_shape negatives (h2 (err c))
                     then Inr (h2(err c := mask_set negatives missing (h2 (err c))))
                     else Inl IndexError)
               else Inr h1))"

fun remove_dark_current :: "meta \<Rightarrow> channel list \<Rightarrow> bool \<Rightarrow> heap \<Rightarrow> exn + heap" where
  "remove_dark_current m [] retain h = Inr h"
| "remove_dark_current m (c # cs) retain h =
     (case remove_dark_current_body m retain c h of
        Inl e \<Rightarrow> Inl e
      | Inr h' \<Rightarrow> remove_dark_current m cs retain h')"

section \<open>Cosmic-ray stage: \<^verbatim>\<open>_remove_cosmic_rays\<close>\<close>

text \<open>
  The detection algorithm (astroscrappy's \<^verbatim>\<open>detect_cosmics\<close>) is outside the
  repository: it is a parameter, a function from a 2-D slice to the pair of
  its boolean hit mask and the cleaned slice.
\<close>

type_synonym detector = "rat arr2 \<Rightarrow> bool arr2 \<times> rat arr2"

text \<open>
  \<^verbatim>\<open>
  for data, err, _ in data_and_errors:
      slices = [detect_cosmics(ccd_slice, **kwargs) for ccd_slice in data]
      data = np.array([ccd_slice[1] for ccd_slice in slices])
      mask = np.array([ccd_slice[0] for ccd_slice in slices])
      err[mask] = True
  \<close>
  The second line of the body binds the local name \<^verbatim>\<open>data\<close> to a new array;
  the array of the record, at address \<open>data c\<close>, is not written.  The last
  line stores \<^verbatim>\<open>True\<close>, which a float array holds as 1.
\<close>

definition cleaned_stack :: "detector \<Rightarrow> rat arr3 \<Rightarrow> rat arr3" where
  "cleaned_stack detect_cosmics d = map (\<lambda>ccd_slice. snd (detect_cosmics ccd_slice)) d"

definition hit_mask :: "detector \<Rightarrow> rat arr3 \<Rightarrow> bool arr3" where
  "hit_mask detect_cosmics d = map (\<lambda>ccd_slice. fst (detect_cosmics ccd_slice)) d"

definition remove_cosmic_rays_body :: "detector \<Rightarrow> channel \<Rightarrow> heap \<Rightarrow> exn + heap" where
  "remove_cosmic_rays_body detect_cosmics c h =
     (let slices = map detect_cosmics (h (data c));
          data_local = map snd slices;
          mask = map fst slices
      in if same_shape mask (h (err c))
         then Inr (h(err c := mask_set mask 1 (h (err c))))
         else Inl IndexError)"

fun remove_cosmic_rays :: "detector \<Rightarrow> channel list \<Rightarrow> heap \<Rightarrow> exn + heap" where
  "remove_cosmic_rays detect_cosmics [] h = Inr h"
| "remove_cosmic_rays detect_cosmics (c # cs) h =
     (case remove_cosmic_rays_body detect_cosmics c h of
        Inl e \<Rightarrow> Inl e
      | Inr h' \<Rightarrow> remove_cosmic_rays detect_cosmics cs h')"

text \<open>
  A detection algorithm for concrete runs: a count of 1000 or more is a hit
  and is cleaned to 0.
\<close>

definition threshold_detector :: detector where
  "threshold_detector s =
     (map (map (\<lambda>x. x \<ge> 1000)) s, map (map (\<lambda>x. if x \<ge> 1000 then 0 else x)) s)"

section \<open>Dates\<close>

text \<open>
  Every \<^verbatim>\<open>datetime\<close> of the module is parsed from a year-month-day string, so
  its time of day is midnight: a date is its year, month and day.  The
  comparison is that of \<^verbatim>\<open>datetime\<close>, field by field.
\<close>

record date =
  year :: nat
  month :: nat
  day :: nat

definition date_less :: "date \<Rightarrow> date \<Rightarrow> bool" where
  "date_less a b =
     (year a < year b \<or>
      (year a = year b \<and> (month a < month b \<or> (month a = month b \<and> day a < day b))))"

definition date_le :: "date \<Rightarrow> date \<Rightarrow> bool" where
  "date_le a b = (date_less a b \<or> (year a = year b \<and> month a = month b \<and> day a = day b))"

definition is_leap :: "nat \<Rightarrow> bool" where
  "is_leap y = (y mod 4 = 0 \<and> (y mod 100 \<noteq> 0 \<or> y mod 400 = 0))"

definition days_in_month :: "nat \<Rightarrow> nat \<Rightarrow> nat" where
  "days_in_month y m =
     (if m = 2 then (if is_leap y then 29 else 28)
      else if m = 4 \<or> m = 6 \<or> m = 9 \<or> m = 11 then 30 else 31)"

definition valid_date :: "date \<Rightarrow> bool" where
  "valid_date d =
     (1 \<le> year d \<and> 1 \<le> month d \<and> month d \<le> 12 \<and>
      1 \<le> day d \<and> day d \<le> days_in_month (year d) (month d))"

text \<open>The day number of a date, as \<^verbatim>\<open>toordinal\<close> counts it (1 January of year 1 is day 1).\<close>

definition days_before_year :: "nat \<Rightarrow> nat" where
  "days_before_year y = (y - 1) * 365 + (y - 1) div 4 - (y - 1) div 100 + (y - 1) div 400"

definition days_before_month :: "nat \<Rightarrow> nat \<Rightarrow> nat" where
  "days_before_month y m =
     [0, 31, 59, 90, 120, 151, 181, 212, 243, 273, 304, 334] ! (m - 1) +
     (if m > 2 \<and> is_leap y then 1 else 0)"

definition toordinal :: "date \<Rightarrow> int" where
  "toordinal d = int (days_before_year (year d) + days_before_month (year d) (month d) + day d)"

text \<open>
  The sort key of the fetcher, \<^verbatim>\<open>lambda d: d - date if d > date else date - d\<close>:
  a time difference, in days.  \<open>abs_days\<close> is the absolute distance in days
  between two dates.
\<close>

definition abs_days :: "date \<Rightarrow> date \<Rightarrow> int" where
  "abs_days date d = \<bar>toordinal d - toordinal date\<bar>"

definition distance_key :: "date \<Rightarrow> date \<Rightarrow> int" where
  "distance_key date d =
     (if date_less date d then toordinal d - toordinal date else toordinal date - toordinal d)"

subsection \<open>Formatting and parsing\<close>

text \<open>
  \<^verbatim>\<open>strftime\<close> with the formats of the module.  Python 2 raises ValueError for
  a year before 1900; the month abbreviation is the English one, which the
  module forces by setting the locale, and the module lowers its case.
\<close>

definition pad2 :: "nat \<Rightarrow> string" where
  "pad2 n = (if n < 10 then ''0'' @ str_nat n else str_nat n)"

definition month_abbr :: "nat \<Rightarrow> string" where
  "month_abbr m =
     (if 1 \<le> m \<and> m \<le> 12
      then [''jan'', ''feb'', ''mar'', ''apr'', ''may'', ''jun'',
            ''jul'', ''aug'', ''sep'', ''oct'', ''nov'', ''dec''] ! (m - 1)
      else [])"

definition strftime_ymd :: "date \<Rightarrow> string" where
  "strftime_ymd d = str_nat (year d) @ ''-'' @ pad2 (month d) @ ''-'' @ pad2 (day d)"

definition strftime_dby_lower :: "date \<Rightarrow> string" where
  "strftime_dby_lower d = pad2 (day d) @ month_abbr (month d) @ pad2 (year d mod 100)"

text \<open>
  \<^verbatim>\<open>strptime(s, '%Y-%m-%d/')\<close>: four digits, a month of one or two digits
  from 1 to 12, a day of one or two digits (or a space and a digit) from 1 to
  31 and the closing slash; a string of another form, the year 0 and a day the
  month does not have raise ValueError.
\<close>

definition is_digit :: "char \<Rightarrow> bool" where
  "is_digit c = (c \<in> set ''0123456789'')"

definition digits_val :: "string \<Rightarrow> nat" where
  "digits_val s = foldl (\<lambda>a c. 10 * a + (of_char c - 48)) 0 s"

fun split_on :: "char \<Rightarrow> string \<Rightarrow> string list" where
  "split_on sep [] = [[]]"
| "split_on sep (c # cs) =
     (if c = sep then [] # split_on sep cs
      else (case split_on sep cs of [] \<Rightarrow> [[c]] | p # ps \<Rightarrow> (c # p) # ps))"

definition number_field :: "string \<Rightarrow> nat \<Rightarrow> bool" where
  "number_field s hi =
     ((length s = 1 \<or> length s = 2) \<and> list_all is_digit s \<and>
      1 \<le> digits_val s \<and> digits_val s \<le> hi)"

definition day_field :: "string \<Rightarrow> bool" where
  "day_field s = (number_field s 31 \<or> (length s = 2 \<and> hd s = CHR '' '' \<and> number_field (tl s) 9))"

definition strptime :: "string \<Rightarrow> exn + date" where
  "strptime s =
     (case split_on CHR ''-'' s of
        [ys, ms, ds] \<Rightarrow>
          if length ys = 4 \<and> list_all is_digit ys \<and> number_field ms 12 \<and>
             ds \<noteq> [] \<and> last ds = CHR ''/'' \<and> day_field (butlast ds)
          then (let d = \<lparr>year = digits_val ys, month = digits_val ms,
                           day = digits_val (filter is_digit ds)\<rparr>
                in if valid_date d then Inr d else Inl ValueError)
          else Inl ValueError
      | _ \<Rightarrow> Inl ValueError)"

fun strptime_all :: "string list \<Rightarrow> exn + date list" where
  "strptime_all [] = Inr []"
| "strptime_all (s # ss) =
     (case strptime s of
        Inl e \<Rightarrow> Inl e
      | Inr d \<Rightarrow> (case strptime_all ss of Inl e \<Rightarrow> Inl e | Inr ds \<Rightarrow> Inr (d # ds)))"

section \<open>The archive and the process state\<close>

text \<open>
  The remote archive answers two kinds of request: the page at a URL, of
  which the module reads the targets of its links, and the file at a URL,
  which is there (status 200, a bitmap) or not.  The process state is the
  module's dictionary \<^verbatim>\<open>__pix_memo__\<close> and, to state what goes over the network,
  the list of the requests issued so far.  An archive that cannot be reached
  is not modelled.
\<close>

record world =
  links :: "string \<Rightarrow> string list"
  http :: "string \<Rightarrow> rat arr2 option"

datatype request = Urlopen string | Urlretrieve string

record state =
  pix_memo :: "string \<Rightarrow> rat arr2 option"
  requests :: "request list"

definition issue :: "request \<Rightarrow> state \<Rightarrow> state" where
  "issue r s = s\<lparr>requests := requests s @ [r]\<rparr>"

text \<open>The URLs opened, and the URLs retrieved, among a list of requests.\<close>

fun opened :: "request list \<Rightarrow> string list" where
  "opened [] = []"
| "opened (Urlopen u # rs) = u # opened rs"
| "opened (Urlretrieve u # rs) = opened rs"

fun retrieved :: "request list \<Rightarrow> string list" where
  "retrieved [] = []"
| "retrieved (Urlopen u # rs) = retrieved rs"
| "retrieved (Urlretrieve u # rs) = u # retrieved rs"

definition darts :: string where
  "darts = ''http://darts.jaxa.jp/pub/ssw/solarb/eis/data/cal/''"

section \<open>Pixel-map fetcher\<close>

text \<open>
  \<^verbatim>\<open>
  url = __darts__
  url += pix_type + '/'
  url += date.strftime("%Y-%m-%d") + '/'
  url += 'coords_' + detector + '_' + left_right + '_'
  datestr = date.strftime("%d%b%y").lower()
  if pix_type == 'wp':
      url += top_bot + '_'
      url += datestr + '_100s.sav'
  else:
      url += datestr
      if detector != 'middle':
          url += '_' + top_bot
      url += '.sav'
  return url
  \<close>
  \<open>pix_url\<close> is the string built; the function raises ValueError, from
  \<^verbatim>\<open>strftime\<close>, for a year before 1900.
\<close>

definition pix_url :: "date \<Rightarrow> string \<Rightarrow> string \<Rightarrow> string \<Rightarrow> string \<Rightarrow> string" where
  "pix_url date pix_type detector top_bot left_right =
     (let url = darts @ pix_type @ ''/'' @ strftime_ymd date @ ''/'' @
                ''coords_'' @ detector @ ''_'' @ left_right @ ''_'';
          datestr = strftime_dby_lower date
      in if pix_type = ''wp''
         then url @ top_bot @ ''_'' @ datestr @ ''_100s.sav''
         else url @ datestr @
              (if detector \<noteq> ''middle'' then ''_'' @ top_bot else []) @ ''.sav'')"

definition construct_hot_warm_pix_url ::
  "date \<Rightarrow> string \<Rightarrow> string \<Rightarrow> string \<Rightarrow> string \<Rightarrow> exn + string" where
  "construct_hot_warm_pix_url date pix_type detector top_bot left_right =
     (if year date < 1900 then Inl ValueError
      else Inr (pix_url date pix_type detector top_bot left_right))"

text \<open>
  \<^verbatim>\<open>
  url = __darts__ + pix_type + '/'
  http_request = urllib.urlopen(url)
  soup = BeautifulSoup(http_request.read())
  links = soup.find_all('a')
  date_str = [link.get('href') for link in links]
  dates = [dt.datetime.strptime(date, '%Y-%m-%d/') for date in date_str[5:]]
  return dates
  \<close>
\<close>

definition get_cal_dates :: "world \<Rightarrow> string \<Rightarrow> state \<Rightarrow> (exn + date list) \<times> state" where
  "get_cal_dates w pix_type s =
     (let url = darts @ pix_type @ ''/'';
          s1 = issue (Urlopen url) s;
          date_str = links w url
      in (strptime_all (drop 5 date_str), s1))"

text \<open>
  The loop of \<^verbatim>\<open>_try_download_nearest_cal\<close> over the sorted dates:
  \<^verbatim>\<open>
  for cal_date in dates:
      url = _construct_hot_warm_pix_url(cal_date, pix_type, detector, top_bot, left_right)
      http_response = urllib.urlopen(url)
      http_response.close()
      if http_response.code == 200:
          http_down = urllib.urlretrieve(url)
          arr = readsav(http_down[0]).ccd_data
          __pix_memo__[key] = arr
          return arr
  \<close>
  Falling off the loop returns \<^verbatim>\<open>None\<close>.
\<close>

fun probe_dates ::
  "world \<Rightarrow> string \<Rightarrow> string \<Rightarrow> string \<Rightarrow> string \<Rightarrow> string \<Rightarrow> date list \<Rightarrow> state \<Rightarrow>
   (exn + rat arr2 option) \<times> state" where
  "probe_dates w key pix_type detector top_bot left_right [] s = (Inr None, s)"
| "probe_dates w key pix_type detector top_bot left_right (cal_date # dates) s =
     (case construct_hot_warm_pix_url cal_date pix_type detector top_bot left_right of
        Inl e \<Rightarrow> (Inl e, s)
      | Inr url \<Rightarrow>
          (let s1 = issue (Urlopen url) s
           in case http w url of
                Some arr \<Rightarrow>
                  (Inr (Some arr),
                   (issue (Urlretrieve url) s1)\<lparr>pix_memo := (pix_memo s1)(key \<mapsto> arr)\<rparr>)
              | None \<Rightarrow> probe_dates w key pix_type detector top_bot left_right dates s1))"

text \<open>
  \<^verbatim>\<open>
  key = _construct_hot_warm_pix_url(date, pix_type, detector, top_bot, left_right)
  if key in __pix_memo__:
      return __pix_memo__[key]
  dates = _get_cal_dates(pix_type)
  dates.sort(key=lambda d: d - date if d > date else date - d)
  for cal_date in dates: ...
  \<close>
  Python's sort is stable, as \<open>sort_key\<close> is.
\<close>

definition try_download_nearest_cal ::
  "world \<Rightarrow> date \<Rightarrow> string \<Rightarrow> string \<Rightarrow> string \<Rightarrow> string \<Rightarrow> state \<Rightarrow>
   (exn + rat arr2 option) \<times> state" where
  "try_download_nearest_cal w date pix_type detector top_bot left_right s =
     (case construct_hot_warm_pix_url date pix_type detector top_bot left_right of
        Inl e \<Rightarrow> (Inl e, s)
      | Inr key \<Rightarrow>
          (case pix_memo s key of
             Some arr \<Rightarrow> (Inr (Some arr), s)
           | None \<Rightarrow>
               (case get_cal_dates w pix_type s of
                  (Inl e, s1) \<Rightarrow> (Inl e, s1)
                | (Inr dates, s1) \<Rightarrow>
                    probe_dates w key pix_type detector top_bot left_right
                      (sort_key (distance_key date) dates) s1)))"

text \<open>
  \<^verbatim>\<open>
  url = __darts__ + 'dp/dusty_pixels.sav'
  http_down = urllib.urlretrieve(url)
  dusties = readsav(http_down[0]).dp_data
  return dusties[y_window[0]:y_window[1], x_window[0]: x_window[1]]
  \<close>
  Reading a file that is not there fails (\<open>ReadError\<close>).
\<close>

definition get_dusty_array ::
  "world \<Rightarrow> int \<times> int \<Rightarrow> int \<times> int \<Rightarrow> state \<Rightarrow> (exn + rat arr2) \<times> state" where
  "get_dusty_array w y_window x_window s =
     (let url = darts @ ''dp/dusty_pixels.sav'';
          s1 = issue (Urlretrieve url) s
      in case http w url of
           None \<Rightarrow> (Inl ReadError, s1)
         | Some dusties \<Rightarrow>
             (Inr (map (py_slice (fst x_window) (snd x_window))
                     (py_slice (fst y_window) (snd y_window) dusties)), s1))"

text \<open>
  \<^verbatim>\<open>
  tb_tuple = ('top', 'bottom') if top_bot == 'both' else (top_bot,)
  lr_tuple = ('left', 'right') if left_right == 'both' else (left_right,)
  retfiles = {}
  for vert in tb_tuple:
      for horiz in lr_tuple:
          key = vert + horiz
          arr = _try_download_nearest_cal(date, pix_type, detector, vert, horiz)
          retfiles.update({key: arr})
  return retfiles
  \<close>
  A value of the dictionary is an array or \<^verbatim>\<open>None\<close>: the dictionary maps a key
  it holds to \<open>Some None\<close> when the fetch returned \<^verbatim>\<open>None\<close>.
\<close>

type_synonym retfiles = "string \<Rightarrow> rat arr2 option option"

fun download_tiles ::
  "world \<Rightarrow> date \<Rightarrow> string \<Rightarrow> string \<Rightarrow> (string \<times> string) list \<Rightarrow> retfiles \<Rightarrow> state \<Rightarrow>
   (exn + retfiles) \<times> state" where
  "download_tiles w date pix_type detector [] retfiles s = (Inr retfiles, s)"
| "download_tiles w date pix_type detector ((vert, horiz) # rest) retfiles s =
     (case try_download_nearest_cal w date pix_type detector vert horiz s of
        (Inl e, s1) \<Rightarrow> (Inl e, s1)
      | (Inr arr, s1) \<Rightarrow>
          download_tiles w date pix_type detector rest (retfiles(vert @ horiz \<mapsto> arr)) s1)"

definition download_calibration_data ::
  "world \<Rightarrow> date \<Rightarrow> string \<Rightarrow> string \<Rightarrow> string \<Rightarrow> string \<Rightarrow> state \<Rightarrow>
   (exn + retfiles) \<times> state" where
  "download_calibration_data w date pix_type detector top_bot left_right s =
     (let tb_tuple = (if top_bot = ''both'' then [''top'', ''bottom''] else [top_bot]);
          lr_tuple = (if left_right = ''both'' then [''left'', ''right''] else [left_right])
      in download_tiles w date pix_type detector (List.product tb_tuple lr_tuple) Map.empty s)"

section \<open>Detector geometry resolver: \<^verbatim>\<open>_calculate_detectors\<close>\<close>

text \<open>
  \<^verbatim>\<open>
  if date <= dt.datetime(2008, 1, 18):
      top_bot = 'middle'
  else:
      top_bot = 'top' if y_window_start >= 512 else \
                'bottom' if y_window_start + n_y_pixels <= 512 else \
                'both'
  left_right = 'right' if x_start >= 1024 else \
               'left' if (x_start + x_width) < 1024 else \
               'both'
  return top_bot, left_right
  \<close>
\<close>

definition calculate_detectors :: "date \<Rightarrow> int \<Rightarrow> int \<Rightarrow> int \<Rightarrow> int \<Rightarrow> string \<times> string" where
  "calculate_detectors date y_window_start n_y_pixels x_start x_width =
     (let top_bot =
            (if date_le date \<lparr>year = 2008, month = 1, day = 18\<rparr> then ''middle''
             else if y_window_start \<ge> 512 then ''top''
             else if y_window_start + n_y_pixels \<le> 512 then ''bottom''
             else ''both'');
          left_right =
            (if x_start \<ge> 1024 then ''right''
             else if x_start + x_width < 1024 then ''left''
             else ''both'')
      in (top_bot, left_right))"

section \<open>Defect-map compositor: \<^verbatim>\<open>_get_pixel_map\<close>\<close>

text \<open>
  The canvas is a float array.  Storing \<^verbatim>\<open>None\<close> into a float array stores
  nan, so a cell of the canvas is a number or nan.
\<close>

datatype cell = Num rat | NaN

definition zeros :: "nat \<Rightarrow> nat \<Rightarrow> cell arr2" where
  "zeros r c = replicate r (replicate c (Num 0))"

text \<open>\<^verbatim>\<open>arrays.get(key, default)\<close>: the default is for a key the dictionary does not hold.\<close>

definition dict_get :: "retfiles \<Rightarrow> string \<Rightarrow> rat arr2 option \<Rightarrow> rat arr2 option" where
  "dict_get arrays k dflt = (case arrays k of None \<Rightarrow> dflt | Some v \<Rightarrow> v)"

text \<open>
  \<^verbatim>\<open>g[r0:r1, c0:c1] = v\<close> for bounds inside the canvas: \<^verbatim>\<open>None\<close> fills the block
  with nan, an array of the shape of the block is copied, and an array of
  another shape raises ValueError (shapes that numpy would broadcast to the
  block are not told apart from the others).
\<close>

definition block_rows :: "nat \<Rightarrow> nat \<Rightarrow> rat arr2 option \<Rightarrow> exn + cell arr2" where
  "block_rows nr nc v =
     (case v of
        None \<Rightarrow> Inr (replicate nr (replicate nc NaN))
      | Some t \<Rightarrow>
          if length t = nr \<and> list_all (\<lambda>row. length row = nc) t
          then Inr (map (map Num) t)
          else Inl ValueError)"

definition write_block :: "nat \<Rightarrow> nat \<Rightarrow> nat \<Rightarrow> nat \<Rightarrow> cell arr2 \<Rightarrow> cell arr2 \<Rightarrow> cell arr2" where
  "write_block r0 r1 c0 c1 rows g =
     take r0 g @
     map2 (\<lambda>row new. take c0 row @ new @ drop c1 row) (take (r1 - r0) (drop r0 g)) rows @
     drop r1 g"

definition set_block ::
  "nat \<Rightarrow> nat \<Rightarrow> nat \<Rightarrow> nat \<Rightarrow> rat arr2 option \<Rightarrow> cell arr2 \<Rightarrow> exn + cell arr2" where
  "set_block r0 r1 c0 c1 v g =
     (case block_rows (r1 - r0) (c1 - c0) v of
        Inl e \<Rightarrow> Inl e
      | Inr rows \<Rightarrow> Inr (write_block r0 r1 c0 c1 rows g))"

text \<open>
  \<^verbatim>\<open>
  glued_array = np.zeros((1024, 2048))
  zero_arr = np.zeros((512, 1024))
  glued_array[0:512, 0:1024] = arrays.get('topleft', zero_arr)
  glued_array[512:1024, 1024:2048] = arrays.get('bottomright', zero_arr)
  glued_array[512:1024, 0:1024] = arrays.get('bottomleft', zero_arr)
  glued_array[0:512, 1024:2048] = arrays.get('topright', zero_arr)
  \<close>
\<close>

definition glue :: "retfiles \<Rightarrow> exn + cell arr2" where
  "glue arrays =
     (let glued_array = zeros 1024 2048;
          zero_arr = Some (replicate 512 (replicate 1024 0))
      in case set_block 0 512 0 1024 (dict_get arrays ''topleft'' zero_arr) glued_array of
           Inl e \<Rightarrow> Inl e
         | Inr g1 \<Rightarrow>
        (case set_block 512 1024 1024 2048 (dict_get arrays ''bottomright'' zero_arr) g1 of
           Inl e \<Rightarrow> Inl e
         | Inr g2 \<Rightarrow>
        (case set_block 512 1024 0 1024 (dict_get arrays ''bottomleft'' zero_arr) g2 of
           Inl e \<Rightarrow> Inl e
         | Inr g3 \<Rightarrow>
            set_block 0 512 1024 2048 (dict_get arrays ''topright'' zero_arr) g3)))"

text \<open>
  \<^verbatim>\<open>
  y_window_start = y_window[0]
  x_start = x_window[0] % 2048
  n_y_pixels = y_window[1] - y_window[0]
  x_width = x_window[1] - x_window[0]
  detector_areas = _calculate_detectors(date, y_window_start, n_y_pixels, x_start, x_width)
  arrays = _download_calibration_data(date, pix_type, detector,
                                      detector_areas[0], detector_areas[1])
  ...
  return glued_array[y_window_start:y_window[1], x_start:(x_window[1] % 2048)]
  \<close>
\<close>

definition get_pixel_map ::
  "world \<Rightarrow> date \<Rightarrow> string \<Rightarrow> string \<Rightarrow> int \<times> int \<Rightarrow> int \<times> int \<Rightarrow> state \<Rightarrow>
   (exn + cell arr2) \<times> state" where
  "get_pixel_map w date pix_type detector y_window x_window s =
     (let y_window_start = fst y_window;
          x_start = fst x_window mod 2048;
          n_y_pixels = snd y_window - fst y_window;
          x_width = snd x_window - fst x_window;
          detector_areas = calculate_detectors date y_window_start n_y_pixels x_start x_width
      in case download_calibration_data w date pix_type detector
                (fst detector_areas) (snd detector_areas) s of
           (Inl e, s1) \<Rightarrow> (Inl e, s1)
         | (Inr arrays, s1) \<Rightarrow>
             (case glue arrays of
                Inl e \<Rightarrow> (Inl e, s1)
              | Inr glued_array \<Rightarrow>
                  (Inr (map (py_slice x_start (snd x_window mod 2048))
                          (py_slice y_window_start (snd y_window) glued_array)), s1)))"

section \<open>Concrete archives\<close>

text \<open>
  The number of leading dates of a list whose file the archive does not
  have: the position of the first date that responds.
\<close>

definition first_hit :: "world \<Rightarrow> string \<Rightarrow> string \<Rightarrow> string \<Rightarrow> string \<Rightarrow> date list \<Rightarrow> nat" where
  "first_hit w pix_type detector top_bot left_right ds =
     length (takeWhile (\<lambda>d. http w (pix_url d pix_type detector top_bot left_right) = None) ds)"

text \<open>
  An archive for concrete runs.  Its index of hot-pixel dates has the five
  links of a directory listing before the dates 2015-01-03, 2015-01-08 and
  2015-01-12; it has the top-left hot-pixel file of detector a for
  2015-01-12 only, and the dusty-pixel file.  The process starts with an empty
  dictionary and no request issued.
\<close>

definition example_archive :: world where
  "example_archive =
     \<lparr>links = (\<lambda>u. if u = ''http://darts.jaxa.jp/pub/ssw/solarb/eis/data/cal/hp/''
                    then [''?C=N;O=D'', ''?C=M;O=A'', ''?C=S;O=A'', ''?C=D;O=A'',
                          ''/pub/ssw/solarb/eis/data/cal/'',
                          ''2015-01-03/'', ''2015-01-08/'', ''2015-01-12/'']
                    else []),
      http = (\<lambda>u. if u = ''http://darts.jaxa.jp/pub/ssw/solarb/eis/data/cal/hp/2015-01-12/coords_a_left_12jan15_top.sav''
                   then Some [[0, 1]]
                   else if u = ''http://darts.jaxa.jp/pub/ssw/solarb/eis/data/cal/dp/dusty_pixels.sav''
                   then Some [[0, 0], [1, 0]]
                   else None)\<rparr>"

definition start_state :: state where
  "start_state = \<lparr>pix_memo = Map.empty, requests = []\<rparr>"

chapter \<open>The proofs\<close>

section \<open>Proofs: the invalid-pixel stage\<close>

lemma map2_map_same: "map2 f (map g xs) xs = map (\<lambda>x. f (g x) x) xs"
  by (induction xs) simp_all

lemma mask_set_map3_same:
  "mask_set (map3 p d) v d = map3 (\<lambda>x. if p x then v else x) d"
  by (simp add: mask_set_def map3_def map2_map_same)

lemma mask_set_map3_map3:
  "mask_set (map3 p d) v (map3 q d) = map3 (\<lambda>x. if p x then v else q x) d"
  by (simp add: mask_set_def map3_def map2_map_map)

lemma invalid_mask:
  "mask_set (map3 (\<lambda>x. x \<ge> 16383) d) True (map3 (\<lambda>x. x \<le> 0) d) = map3 invalid d"
proof -
  have "(\<lambda>x::rat. if 16383 \<le> x then True else x \<le> 0) = invalid"
    by (auto simp add: invalid_def fun_eq_iff)
  then show ?thesis by (simp add: mask_set_map3_map3)
qed

lemma same_shape_lengths:
  assumes "same_shape m a"
  shows "length m = length a"
    and "i < length a \<Longrightarrow> length (m ! i) = length (a ! i)"
    and "i < length a \<Longrightarrow> j < length (a ! i) \<Longrightarrow> length (m ! i ! j) = length (a ! i ! j)"
  using assms by (auto simp add: same_shape_def list_all2_conv_all_nth)

lemma same_shape_map3_left [simp]: "same_shape (map3 f a) b = same_shape a b"
  by (auto simp add: same_shape_def map3_def list_all2_conv_all_nth)

lemma same_shape_map3_right [simp]: "same_shape a (map3 f b) = same_shape a b"
  by (auto simp add: same_shape_def map3_def list_all2_conv_all_nth)

lemma same_shape_refl [simp]: "same_shape a a"
  by (simp add: same_shape_def list_all2_conv_all_nth)

lemma map2_idem:
  "(\<And>x y. x \<in> set xs \<Longrightarrow> f x (f x y) = f x y) \<Longrightarrow> map2 f xs (map2 f xs ys) = map2 f xs ys"
proof (induction xs arbitrary: ys)
  case Nil
  then show ?case by simp
next
  case (Cons x xs)
  then show ?case by (cases ys) simp_all
qed

lemma mask_set_idem: "mask_set m v (mask_set m v a) = mask_set m v a"
  unfolding mask_set_def
  by (intro map2_idem) simp

lemma mask_set_nth:
  assumes "same_shape m a" "i < length a" "j < length (a ! i)" "k < length (a ! i ! j)"
  shows "mask_set m v a ! i ! j ! k = (if m ! i ! j ! k then v else a ! i ! j ! k)"
  using assms same_shape_lengths[OF assms(1)]
  by (simp add: mask_set_def)

lemma mask_set_shape: "same_shape m a \<Longrightarrow> same_shape m (mask_set m v a)"
  by (auto simp add: same_shape_def mask_set_def list_all2_conv_all_nth)


lemma body_result:
  assumes "data c \<noteq> err c" "same_shape (h (data c)) (h (err c))"
  shows "remove_zeros_saturated_body c h =
           Inr (h(data c := cleaned (h (data c)), err c := marked (h (data c)) (h (err c))))"
  using assms
  by (simp add: remove_zeros_saturated_body_def Let_def invalid_mask mask_set_map3_same
      cleaned_def marked_def)

lemma cleaned_idem: "cleaned (cleaned d) = cleaned d"
  by (simp add: cleaned_def map3_def comp_def invalid_def)

lemma invalid_cleaned: "map3 invalid (cleaned d) = map3 invalid d"
  by (simp add: cleaned_def map3_def comp_def invalid_def)

lemma marked_idem: "marked (cleaned d) (marked d e) = marked d e"
  by (simp add: marked_def invalid_cleaned mask_set_idem)

lemma same_shape_cleaned_marked:
  "same_shape d e \<Longrightarrow> same_shape (cleaned d) (marked d e)"
  using mask_set_shape [of "map3 invalid d" e missing]
  by (simp add: cleaned_def marked_def)

lemma stage_result:
  assumes "distinct (refs cs)"
    and "\<forall>c \<in> set cs. same_shape (h (data c)) (h (err c))"
  shows "\<exists>h'. remove_zeros_saturated cs h = Inr h' \<and>
           (\<forall>c \<in> set cs. h' (data c) = cleaned (h (data c)) \<and>
                           h' (err c) = marked (h (data c)) (h (err c))) \<and>
           (\<forall>a. a \<notin> set (refs cs) \<longrightarrow> h' a = h a)"
  using assms
proof (induction cs arbitrary: h)
  case Nil
  then show ?case by simp
next
  case (Cons c cs)
  let ?h1 = "h(data c := cleaned (h (data c)), err c := marked (h (data c)) (h (err c)))"
  from Cons.prems have ne: "data c \<noteq> err c"
    and fresh: "data c \<notin> set (refs cs)" "err c \<notin> set (refs cs)"
    and dist: "distinct (refs cs)"
    by (auto simp add: refs_def)
  have inrefs: "\<And>c'. c' \<in> set cs \<Longrightarrow> data c' \<in> set (refs cs) \<and> err c' \<in> set (refs cs)"
    by (auto simp add: refs_def)
  have same: "?h1 (data c') = h (data c') \<and> ?h1 (err c') = h (err c')"
    if "c' \<in> set cs" for c'
  proof -
    from inrefs [OF that] fresh
    have "data c' \<noteq> data c" "data c' \<noteq> err c" "err c' \<noteq> data c" "err c' \<noteq> err c"
      by metis+
    then show ?thesis by simp
  qed
  from Cons.prems(2) same
  have shapes: "\<forall>c' \<in> set cs. same_shape (?h1 (data c')) (?h1 (err c'))"
    by simp
  from Cons.IH [OF dist shapes] obtain h' where
    run: "remove_zeros_saturated cs ?h1 = Inr h'"
    and res: "\<forall>c' \<in> set cs. h' (data c') = cleaned (?h1 (data c')) \<and>
                h' (err c') = marked (?h1 (data c')) (?h1 (err c'))"
    and frame: "\<forall>a. a \<notin> set (refs cs) \<longrightarrow> h' a = ?h1 a"
    by blast
  from Cons.prems(2) ne
  have step: "remove_zeros_saturated_body c h = Inr ?h1"
    by (simp add: body_result)
  have 1: "remove_zeros_saturated (c # cs) h = Inr h'"
    using step run by simp
  have 2: "h' (data c) = cleaned (h (data c)) \<and> h' (err c) = marked (h (data c)) (h (err c))"
    using frame fresh ne by simp
  have 3: "\<forall>c' \<in> set cs. h' (data c') = cleaned (h (data c')) \<and>
             h' (err c') = marked (h (data c')) (h (err c'))"
    using res same by simp
  have 4: "\<forall>a. a \<notin> set (refs (c # cs)) \<longrightarrow> h' a = h a"
    using frame by (simp add: refs_def)
  from 1 2 3 4 show ?case by simp
qed

lemma cleaned_nth:
  assumes "i < length d" "j < length (d ! i)" "k < length (d ! i ! j)"
  shows "cleaned d ! i ! j ! k = (if invalid (d ! i ! j ! k) then 0 else d ! i ! j ! k)"
  using assms by (simp add: cleaned_def map3_def)

lemma marked_nth:
  assumes "same_shape d e" "i < length d" "j < length (d ! i)" "k < length (d ! i ! j)"
  shows "marked d e ! i ! j ! k = (if invalid (d ! i ! j ! k) then missing else e ! i ! j ! k)"
proof -
  have s: "same_shape (map3 invalid d) e" using assms(1) by simp
  from same_shape_lengths [OF assms(1)] assms(2-4)
  have b: "i < length e" "j < length (e ! i)" "k < length (e ! i ! j)" by simp_all
  have "map3 invalid d ! i ! j ! k = invalid (d ! i ! j ! k)"
    using assms(2-4) by (simp add: map3_def)
  with mask_set_nth [OF s b, of missing] show ?thesis by (simp add: marked_def)
qed

text \<open>
  Claim C5.  When the records use distinct arrays and every error array has
  the shape of its data array, the invalid-pixel stage returns, and for every
  record and every pixel: a count that was \<open>\<le> 0\<close> or \<open>\<ge> 16383\<close> before the stage is
  0 afterwards and its error value is -100; every other pixel keeps its count
  and its error value.
\<close>

theorem remove_zeros_saturated_pixels:
  assumes "distinct (refs cs)"
    and "\<forall>c \<in> set cs. same_shape (h (data c)) (h (err c))"
  shows "\<exists>h'. remove_zeros_saturated cs h = Inr h' \<and>
    (\<forall>c \<in> set cs. \<forall>i < length (h (data c)). \<forall>j < length (h (data c) ! i).
       \<forall>k < length (h (data c) ! i ! j).
         (if h (data c) ! i ! j ! k \<le> 0 \<or> h (data c) ! i ! j ! k \<ge> 16383
          then h' (data c) ! i ! j ! k = 0 \<and> h' (err c) ! i ! j ! k = - 100
          else h' (data c) ! i ! j ! k = h (data c) ! i ! j ! k \<and>
               h' (err c) ! i ! j ! k = h (err c) ! i ! j ! k))"
proof -
  from stage_result [OF assms] obtain h' where
    run: "remove_zeros_saturated cs h = Inr h'"
    and res: "\<forall>c \<in> set cs. h' (data c) = cleaned (h (data c)) \<and>
                h' (err c) = marked (h (data c)) (h (err c))"
    by blast
  have "\<forall>c \<in> set cs. \<forall>i < length (h (data c)). \<forall>j < length (h (data c) ! i).
       \<forall>k < length (h (data c) ! i ! j).
         (if h (data c) ! i ! j ! k \<le> 0 \<or> h (data c) ! i ! j ! k \<ge> 16383
          then h' (data c) ! i ! j ! k = 0 \<and> h' (err c) ! i ! j ! k = - 100
          else h' (data c) ! i ! j ! k = h (data c) ! i ! j ! k \<and>
               h' (err c) ! i ! j ! k = h (err c) ! i ! j ! k)"
  proof (intro ballI allI impI)
    fix c i j k
    assume c: "c \<in> set cs" and i: "i < length (h (data c))"
      and j: "j < length (h (data c) ! i)" and k: "k < length (h (data c) ! i ! j)"
    from assms(2) c have sh: "same_shape (h (data c)) (h (err c))" by simp
    from res c have eq: "h' (data c) = cleaned (h (data c))"
      "h' (err c) = marked (h (data c)) (h (err c))" by simp_all
    show "if h (data c) ! i ! j ! k \<le> 0 \<or> h (data c) ! i ! j ! k \<ge> 16383
          then h' (data c) ! i ! j ! k = 0 \<and> h' (err c) ! i ! j ! k = - 100
          else h' (data c) ! i ! j ! k = h (data c) ! i ! j ! k \<and>
               h' (err c) ! i ! j ! k = h (err c) ! i ! j ! k"
      using cleaned_nth [OF i j k] marked_nth [OF sh i j k]
      by (simp add: eq invalid_def missing_def)
  qed
  with run show ?thesis by blast
qed

text \<open>
  Claim C10.  The invalid-pixel stage is idempotent: run on the store it
  produced, it returns that store unchanged, so every data and error array
  after two runs equals the one after a single run.
\<close>

theorem remove_zeros_saturated_idempotent:
  assumes "distinct (refs cs)"
    and "\<forall>c \<in> set cs. same_shape (h (data c)) (h (err c))"
  shows "\<exists>h'. remove_zeros_saturated cs h = Inr h' \<and> remove_zeros_saturated cs h' = Inr h'"
proof -
  from stage_result [OF assms] obtain h1 where
    run1: "remove_zeros_saturated cs h = Inr h1"
    and res1: "\<forall>c \<in> set cs. h1 (data c) = cleaned (h (data c)) \<and>
                h1 (err c) = marked (h (data c)) (h (err c))"
    and frame1: "\<forall>a. a \<notin> set (refs cs) \<longrightarrow> h1 a = h a"
    by blast
  have shapes: "\<forall>c \<in> set cs. same_shape (h1 (data c)) (h1 (err c))"
    using res1 assms(2) by (simp add: same_shape_cleaned_marked)
  from stage_result [OF assms(1) shapes] obtain h2 where
    run2: "remove_zeros_saturated cs h1 = Inr h2"
    and res2: "\<forall>c \<in> set cs. h2 (data c) = cleaned (h1 (data c)) \<and>
                h2 (err c) = marked (h1 (data c)) (h1 (err c))"
    and frame2: "\<forall>a. a \<notin> set (refs cs) \<longrightarrow> h2 a = h1 a"
    by blast
  have "h2 a = h1 a" for a
  proof (cases "a \<in> set (refs cs)")
    case False
    with frame2 show ?thesis by simp
  next
    case True
    then obtain c where c: "c \<in> set cs" and a: "a = data c \<or> a = err c"
      by (auto simp add: refs_def)
    from res1 res2 c have "h2 (data c) = h1 (data c)" "h2 (err c) = h1 (err c)"
      by (simp_all add: cleaned_idem marked_idem)
    with a show ?thesis by auto
  qed
  then have "h2 = h1" by (simp add: fun_eq_iff)
  with run1 run2 show ?thesis by simp
qed


theorem remove_zeros_saturated_pixels_witness:
  "\<exists>h'. remove_zeros_saturated [\<lparr>data = 0, err = 1, idx = 1\<rparr>]
          ((\<lambda>_. [])(0 := [[[5, 0, 16383, 16382]]], 1 := [[[0, 0, 0, 0]]])) = Inr h' \<and>
        h' 0 = [[[5, 0, 0, 16382]]] \<and> h' 1 = [[[0, - 100, - 100, 0]]]"
proof -
  let ?c = "\<lparr>data = 0, err = 1, idx = 1\<rparr>"
  let ?h = "(\<lambda>_. [])(0 := [[[5, 0, 16383, 16382]]], 1 := [[[0, 0, 0, 0]]]) :: heap"
  have d: "distinct (refs [?c])" by (simp add: refs_def)
  have s: "\<forall>c \<in> set [?c]. same_shape (?h (data c)) (?h (err c))"
    by (simp add: same_shape_def)
  from remove_zeros_saturated_pixels [OF d s] obtain h' where
    run: "remove_zeros_saturated [?c] ?h = Inr h'"
    by blast
  have "remove_zeros_saturated [?c] ?h =
          Inr (?h(0 := [[[5, 0, 0, 16382]]], 1 := [[[0, - 100, - 100, 0]]]))"
    by (simp add: remove_zeros_saturated_body_def map3_def mask_set_def same_shape_def
        missing_def)
  with run have "h' = ?h(0 := [[[5, 0, 0, 16382]]], 1 := [[[0, - 100, - 100, 0]]])" by simp
  then have "h' 0 = [[[5, 0, 0, 16382]]]" "h' 1 = [[[0, - 100, - 100, 0]]]" by simp_all
  with run show ?thesis by blast
qed

theorem remove_zeros_saturated_idempotent_witness:
  "\<exists>h'. remove_zeros_saturated [\<lparr>data = 0, err = 1, idx = 1\<rparr>]
          ((\<lambda>_. [])(0 := [[[5, 0, 16383]]], 1 := [[[0, 0, 0]]])) = Inr h' \<and>
        remove_zeros_saturated [\<lparr>data = 0, err = 1, idx = 1\<rparr>] h' = Inr h' \<and>
        h' 0 = [[[5, 0, 0]]] \<and> h' 1 = [[[0, - 100, - 100]]]"
proof -
  let ?c = "\<lparr>data = 0, err = 1, idx = 1\<rparr>"
  let ?h = "(\<lambda>_. [])(0 := [[[5, 0, 16383]]], 1 := [[[0, 0, 0]]]) :: heap"
  have d: "distinct (refs [?c])" by (simp add: refs_def)
  have s: "\<forall>c \<in> set [?c]. same_shape (?h (data c)) (?h (err c))"
    by (simp add: same_shape_def)
  from remove_zeros_saturated_idempotent [OF d s] obtain h' where
    run: "remove_zeros_saturated [?c] ?h = Inr h'"
    and again: "remove_zeros_saturated [?c] h' = Inr h'"
    by blast
  have "remove_zeros_saturated [?c] ?h =
          Inr (?h(0 := [[[5, 0, 0]]], 1 := [[[0, - 100, - 100]]]))"
    by (simp add: remove_zeros_saturated_body_def map3_def mask_set_def same_shape_def
        missing_def)
  with run have "h' = ?h(0 := [[[5, 0, 0]]], 1 := [[[0, - 100, - 100]]])" by simp
  then have "h' 0 = [[[5, 0, 0]]]" "h' 1 = [[[0, - 100, - 100]]]" by simp_all
  with run again show ?thesis by blast
qed
section \<open>Proofs: the dark-current stage\<close>

text \<open>
  Claim C4 (the code differs).  A partial-CCD record of 50 counts, 49 of them
  5 and one 9, with the metadata giving its window a width of 50: the pedestal
  is the median of the lowest count, 5.  With the retain option the stage
  leaves the counts 0 (49 times) and 4.  Without it, the stage marks the 49
  pixels whose count after the subtraction is 0 as missing, although none of
  them is negative: the test of the stage is \<open>data \<le> 0\<close>.
\<close>

theorem remove_dark_current_marks_zero_counts:
  "(case remove_dark_current (\<lambda>k. if k = ''TDETXW1'' then Some 50 else None)
           [\<lparr>data = 0, err = 1, idx = 1\<rparr>] True
           ((\<lambda>_. [])(0 := [[replicate 49 5 @ [9]]], 1 := [[replicate 50 0]])) of
      Inl e \<Rightarrow> None
    | Inr h' \<Rightarrow> Some (h' 0, h' 1)) = Some ([[replicate 49 0 @ [4]]], [[replicate 50 0]]) \<and>
   (case remove_dark_current (\<lambda>k. if k = ''TDETXW1'' then Some 50 else None)
           [\<lparr>data = 0, err = 1, idx = 1\<rparr>] False
           ((\<lambda>_. [])(0 := [[replicate 49 5 @ [9]]], 1 := [[replicate 50 0]])) of
      Inl e \<Rightarrow> None
    | Inr h' \<Rightarrow> Some (h' 0, h' 1)) =
     Some ([[replicate 49 0 @ [4]]], [[replicate 49 (- 100) @ [0]]])"
  by code_simp

section \<open>Proofs: the cosmic-ray stage\<close>

text \<open>
  Claim C1 (the code differs).  One exposure of two pixels with counts 5 and
  2000; the detection algorithm flags the second pixel.  After the stage the
  error value at the flagged pixel is 1, the value a float array holds for
  \<^verbatim>\<open>True\<close>, and not the missing sentinel -100.
\<close>

theorem remove_cosmic_rays_stores_true:
  "hit_mask threshold_detector [[[5, 2000]]] = [[[False, True]]] \<and>
   (case remove_cosmic_rays threshold_detector [\<lparr>data = 0, err = 1, idx = 1\<rparr>]
           ((\<lambda>_. [])(0 := [[[5, 2000]]], 1 := [[[0, 0]]])) of
      Inl e \<Rightarrow> None
    | Inr h' \<Rightarrow> Some (h' 1)) = Some [[[0, 1]]] \<and>
   missing \<noteq> 1"
  by code_simp

text \<open>
  Claim C2 (the code differs).  On the same input the stack of cleaned slices
  is \<open>[[[5, 0]]]\<close>, and the data array of the record after the stage is still
  \<open>[[[5, 2000]]]\<close>: the stage binds the cleaned stack to its local name and
  never writes the record's array.
\<close>

theorem remove_cosmic_rays_keeps_data:
  "cleaned_stack threshold_detector [[[5, 2000]]] = [[[5, 0]]] \<and>
   (case remove_cosmic_rays threshold_detector [\<lparr>data = 0, err = 1, idx = 1\<rparr>]
           ((\<lambda>_. [])(0 := [[[5, 2000]]], 1 := [[[0, 0]]])) of
      Inl e \<Rightarrow> None
    | Inr h' \<Rightarrow> Some (h' 0)) = Some [[[5, 2000]]]"
  by code_simp

text \<open>
  For every detection algorithm and every store, the stage leaves each array
  other than the error array of the record as it was, the data array of the
  record included.
\<close>

lemma remove_cosmic_rays_body_frame:
  assumes "remove_cosmic_rays_body detect_cosmics c h = Inr h'" and "a \<noteq> err c"
  shows "h' a = h a"
  using assms by (auto simp add: remove_cosmic_rays_body_def Let_def split: if_splits)

section \<open>Proofs: dates\<close>

lemma days_before_year_Suc:
  assumes "1 \<le> y"
  shows "days_before_year (Suc y) = days_before_year y + (if is_leap y then 366 else 365)"
proof -
  from assms obtain p where y: "y = Suc p" by (cases y) auto
  define a b c where "a = p div 4" and "b = p div 100" and "c = p div 400"
  have le1: "b \<le> a" unfolding a_def b_def by (rule div_le_mono2) simp_all
  have m1: "Suc p mod 100 = 0 \<Longrightarrow> Suc p mod 4 = 0"
    using dvd_trans [of 4 100 "Suc p"] by (simp add: mod_eq_0_iff_dvd)
  have m2: "Suc p mod 400 = 0 \<Longrightarrow> Suc p mod 100 = 0"
    using dvd_trans [of 100 400 "Suc p"] by (simp add: mod_eq_0_iff_dvd)
  have d4: "Suc p div 4 = a + (if Suc p mod 4 = 0 then 1 else 0)"
    by (simp add: div_Suc a_def)
  have d100: "Suc p div 100 = b + (if Suc p mod 100 = 0 then 1 else 0)"
    by (simp add: div_Suc b_def)
  have d400: "Suc p div 400 = c + (if Suc p mod 400 = 0 then 1 else 0)"
    by (simp add: div_Suc c_def)
  have A: "days_before_year (Suc (Suc p)) =
             Suc p * 365 + Suc p div 4 - Suc p div 100 + Suc p div 400"
    by (simp add: days_before_year_def)
  have B: "days_before_year (Suc p) = p * 365 + a - b + c"
    by (simp add: days_before_year_def a_def b_def c_def)
  consider (c400) "Suc p mod 400 = 0"
    | (c100) "Suc p mod 400 \<noteq> 0" "Suc p mod 100 = 0"
    | (c4) "Suc p mod 100 \<noteq> 0" "Suc p mod 4 = 0"
    | (c1) "Suc p mod 4 \<noteq> 0"
    by blast
  then show ?thesis
  proof cases
    case c400
    with m1 m2 have "Suc p mod 100 = 0" "Suc p mod 4 = 0" by simp_all
    with c400 have "Suc p div 4 = a + 1" "Suc p div 100 = b + 1" "Suc p div 400 = c + 1"
      "is_leap (Suc p)"
      using d4 d100 d400 by (simp_all add: is_leap_def)
    with le1 show ?thesis unfolding y A B by simp
  next
    case c100
    with m1 have "Suc p mod 4 = 0" by simp
    with c100 have "Suc p div 4 = a + 1" "Suc p div 100 = b + 1" "Suc p div 400 = c"
      "\<not> is_leap (Suc p)"
      using d4 d100 d400 by (simp_all add: is_leap_def)
    with le1 show ?thesis unfolding y A B by simp
  next
    case c4
    with m2 have "Suc p mod 400 \<noteq> 0" by blast
    with c4 have "Suc p div 4 = a + 1" "Suc p div 100 = b" "Suc p div 400 = c"
      "is_leap (Suc p)"
      using d4 d100 d400 by (simp_all add: is_leap_def)
    with le1 show ?thesis unfolding y A B by simp
  next
    case c1
    with m1 have n100: "Suc p mod 100 \<noteq> 0" by blast
    with m2 have n400: "Suc p mod 400 \<noteq> 0" by blast
    note n100 n400
    with c1 have "Suc p div 4 = a" "Suc p div 100 = b" "Suc p div 400 = c"
      "\<not> is_leap (Suc p)"
      using d4 d100 d400 by (simp_all add: is_leap_def)
    with le1 show ?thesis unfolding y A B by simp
  qed
qed

lemma days_before_year_mono:
  assumes "1 \<le> y" "y \<le> z"
  shows "days_before_year y \<le> days_before_year z"
  using assms(2,1)
proof (induction z rule: dec_induct)
  case base
  then show ?case by simp
next
  case (step n)
  then have "1 \<le> n" by simp
  from days_before_year_Suc [OF this] step show ?case by simp
qed

lemma month_cases:
  assumes "1 \<le> m" "m \<le> (12::nat)"
  shows "m \<in> {1, 2, 3, 4, 5, 6, 7, 8, 9, 10, 11, 12}"
  using assms by simp arith

lemma days_before_month_Suc:
  assumes "1 \<le> m" "m \<le> 11"
  shows "days_before_month y (Suc m) = days_before_month y m + days_in_month y m"
proof -
  from assms have "m \<in> {1, 2, 3, 4, 5, 6, 7, 8, 9, 10, 11, 12}" by (intro month_cases) simp_all
  with assms(2) show ?thesis
    by (elim insertE) (simp_all add: days_before_month_def days_in_month_def)
qed

lemma days_before_month_mono:
  assumes "1 \<le> m" "m < m'" "m' \<le> 12"
  shows "days_before_month y m + days_in_month y m \<le> days_before_month y m'"
proof -
  from assms(2) have "Suc m \<le> m'" by simp
  then show ?thesis using assms(1,3)
  proof (induction m' rule: dec_induct)
    case base
    then show ?case by (simp add: days_before_month_Suc)
  next
    case (step n)
    then have "days_before_month y (Suc n) = days_before_month y n + days_in_month y n"
      by (intro days_before_month_Suc) simp_all
    with step show ?case by simp
  qed
qed

lemma days_before_month_year:
  assumes "1 \<le> m" "m \<le> 12"
  shows "days_before_month y m + days_in_month y m \<le> (if is_leap y then 366 else 365)"
proof -
  from assms have "m \<in> {1, 2, 3, 4, 5, 6, 7, 8, 9, 10, 11, 12}" by (rule month_cases)
  then show ?thesis
    by (elim insertE) (simp_all add: days_before_month_def days_in_month_def)
qed

lemma toordinal_mono:
  assumes "valid_date a" "valid_date b" "date_less a b"
  shows "toordinal a < toordinal b"
proof -
  from assms(1) have a: "1 \<le> year a" "1 \<le> month a" "month a \<le> 12" "1 \<le> day a"
    "day a \<le> days_in_month (year a) (month a)" by (simp_all add: valid_date_def)
  from assms(2) have b: "1 \<le> year b" "1 \<le> month b" "month b \<le> 12" "1 \<le> day b"
    by (simp_all add: valid_date_def)
  consider (y) "year a < year b"
    | (m) "year a = year b" "month a < month b"
    | (d) "year a = year b" "month a = month b" "day a < day b"
    using assms(3) by (auto simp add: date_less_def)
  then show ?thesis
  proof cases
    case y
    have "days_before_month (year a) (month a) + day a
            \<le> (if is_leap (year a) then 366 else 365)"
      using days_before_month_year [OF a(2,3), of "year a"] a(5) by (simp split: if_splits)
    then have "days_before_year (year a) + days_before_month (year a) (month a) + day a
            \<le> days_before_year (Suc (year a))"
      using days_before_year_Suc [OF a(1)] by (simp split: if_splits)
    also have "\<dots> \<le> days_before_year (year b)"
      using y by (intro days_before_year_mono) simp_all
    also have "\<dots> < days_before_year (year b) + days_before_month (year b) (month b) + day b"
      using b(4) by simp
    finally show ?thesis by (simp add: toordinal_def)
  next
    case m
    from days_before_month_mono [OF a(2) m(2) b(3), of "year a"] a(5) b(4) m(1)
    show ?thesis by (simp add: toordinal_def)
  next
    case d
    then show ?thesis by (simp add: toordinal_def)
  qed
qed

lemma distance_key_abs_days:
  assumes "valid_date a" "valid_date b"
  shows "distance_key a b = abs_days a b"
proof (cases "date_less a b")
  case True
  from toordinal_mono [OF assms True] True show ?thesis
    by (simp add: distance_key_def abs_days_def)
next
  case False
  show ?thesis
  proof (cases "date_less b a")
    case True
    from toordinal_mono [OF assms(2,1) True] False show ?thesis
      by (simp add: distance_key_def abs_days_def)
  next
    case nb: False
    with False have "year a = year b" "month a = month b" "day a = day b"
      by (auto simp add: date_less_def)
    with False show ?thesis by (simp add: distance_key_def abs_days_def toordinal_def)
  qed
qed

lemma strptime_valid: "strptime s = Inr d \<Longrightarrow> valid_date d"
  by (auto simp add: strptime_def Let_def split: list.splits if_splits)

lemma strptime_all_valid: "strptime_all ss = Inr ds \<Longrightarrow> \<forall>d \<in> set ds. valid_date d"
proof (induction ss arbitrary: ds)
  case Nil
  then show ?case by simp
next
  case (Cons s ss)
  then show ?case
    by (auto split: sum.splits dest: strptime_valid)
qed

section \<open>Proofs: the geometry resolver\<close>

text \<open>
  Claim C9.  The vertical label is "middle" for a date on or before
  2008-01-18, otherwise "top" when the Y window starts at 512 or above,
  "bottom" when it ends (start plus extent) at 512 or below, and "both"
  otherwise; the horizontal label is "right" when the X window starts at 1024
  or above, "left" when it ends below 1024, and "both" otherwise.  The three
  windows of the specification resolve to (middle, left), (top, right) and
  (both, both).
\<close>

theorem calculate_detectors_labels:
  "fst (calculate_detectors date y_start n_y x_start x_width) =
     (if date_le date \<lparr>year = 2008, month = 1, day = 18\<rparr> then ''middle''
      else if y_start \<ge> 512 then ''top''
      else if y_start + n_y \<le> 512 then ''bottom''
      else ''both'') \<and>
   snd (calculate_detectors date y_start n_y x_start x_width) =
     (if x_start \<ge> 1024 then ''right''
      else if x_start + x_width < 1024 then ''left''
      else ''both'') \<and>
   calculate_detectors \<lparr>year = 2008, month = 1, day = 10\<rparr> 0 (100 - 0) 0 (100 - 0) =
     (''middle'', ''left'') \<and>
   calculate_detectors \<lparr>year = 2015, month = 1, day = 1\<rparr> 600 (700 - 600) 1200 (1300 - 1200) =
     (''top'', ''right'') \<and>
   calculate_detectors \<lparr>year = 2015, month = 1, day = 1\<rparr> 400 (700 - 400) 900 (1200 - 900) =
     (''both'', ''both'')"
  by (simp add: calculate_detectors_def Let_def date_le_def date_less_def)

theorem calculate_detectors_labels_witness:
  "fst (calculate_detectors \<lparr>year = 2008, month = 1, day = 18\<rparr> 600 100 1000 24) = ''middle'' \<and>
   snd (calculate_detectors \<lparr>year = 2008, month = 1, day = 18\<rparr> 600 100 1000 24) = ''both'' \<and>
   fst (calculate_detectors \<lparr>year = 2008, month = 1, day = 19\<rparr> 412 100 1000 23) = ''bottom'' \<and>
   snd (calculate_detectors \<lparr>year = 2008, month = 1, day = 19\<rparr> 412 100 1000 23) = ''left''"
  using calculate_detectors_labels [of "\<lparr>year = 2008, month = 1, day = 18\<rparr>" 600 100 1000 24]
    calculate_detectors_labels [of "\<lparr>year = 2008, month = 1, day = 19\<rparr>" 412 100 1000 23]
  by (simp add: date_le_def date_less_def)

section \<open>Proofs: the pixel-map fetcher\<close>

lemma pix_memo_issue [simp]: "pix_memo (issue r s) = pix_memo s"
  by (simp add: issue_def)

lemma requests_issue [simp]: "requests (issue r s) = requests s @ [r]"
  by (simp add: issue_def)

lemma opened_append [simp]: "opened (xs @ ys) = opened xs @ opened ys"
  by (induction xs rule: opened.induct) simp_all

lemma retrieved_append [simp]: "retrieved (xs @ ys) = retrieved xs @ retrieved ys"
  by (induction xs rule: retrieved.induct) simp_all

lemma construct_url_ok:
  "1900 \<le> year d \<Longrightarrow>
   construct_hot_warm_pix_url d pt det tb lr = Inr (pix_url d pt det tb lr)"
  by (simp add: construct_hot_warm_pix_url_def)

lemma probe_dates_run:
  assumes "\<forall>d \<in> set ds. 1900 \<le> year d"
  shows "\<exists>s'. probe_dates w key pt det tb lr ds s =
            (Inr (if first_hit w pt det tb lr ds < length ds
                  then http w (pix_url (ds ! first_hit w pt det tb lr ds) pt det tb lr)
                  else None), s') \<and>
          opened (requests s') =
            opened (requests s) @
            map (\<lambda>d. pix_url d pt det tb lr) (take (Suc (first_hit w pt det tb lr ds)) ds)"
  using assms
proof (induction ds arbitrary: s)
  case Nil
  then show ?case by (simp add: first_hit_def)
next
  case (Cons d ds)
  then have y: "1900 \<le> year d" and ys: "\<forall>d \<in> set ds. 1900 \<le> year d" by simp_all
  show ?case
  proof (cases "http w (pix_url d pt det tb lr)")
    case None
    from Cons.IH [OF ys, of "issue (Urlopen (pix_url d pt det tb lr)) s"]
    obtain s' where
      run: "probe_dates w key pt det tb lr ds (issue (Urlopen (pix_url d pt det tb lr)) s) =
            (Inr (if first_hit w pt det tb lr ds < length ds
                  then http w (pix_url (ds ! first_hit w pt det tb lr ds) pt det tb lr)
                  else None), s')"
      and log: "opened (requests s') =
            opened (requests (issue (Urlopen (pix_url d pt det tb lr)) s)) @
            map (\<lambda>d. pix_url d pt det tb lr) (take (Suc (first_hit w pt det tb lr ds)) ds)"
      by blast
    have fh: "first_hit w pt det tb lr (d # ds) = Suc (first_hit w pt det tb lr ds)"
      using None by (simp add: first_hit_def)
    show ?thesis
      using None run log by (simp add: construct_url_ok [OF y] fh)
  next
    case (Some arr)
    then have fh: "first_hit w pt det tb lr (d # ds) = 0"
      by (simp add: first_hit_def)
    show ?thesis
      using Some by (simp add: construct_url_ok [OF y] fh)
  qed
qed

lemma first_hit_fails:
  "i < first_hit w pt det tb lr ds \<Longrightarrow> http w (pix_url (ds ! i) pt det tb lr) = None"
  unfolding first_hit_def
  using nth_length_takeWhile takeWhile_nth
  by (metis (mono_tags, lifting) length_takeWhile_le nth_mem order_less_le_trans set_takeWhileD)


lemma get_cal_dates_run:
  "get_cal_dates w pt s =
     (strptime_all (drop 5 (links w (darts @ pt @ ''/''))), issue (Urlopen (darts @ pt @ ''/'')) s)"
  by (simp add: get_cal_dates_def Let_def)

lemma sorted_by_abs_days:
  assumes "valid_date date" "\<forall>d \<in> set dates. valid_date d"
  shows "sorted (map (abs_days date) (sort_key (distance_key date) dates))"
proof -
  have "map (abs_days date) (sort_key (distance_key date) dates) =
        map (distance_key date) (sort_key (distance_key date) dates)"
    using assms by (intro map_cong refl) (simp add: distance_key_abs_days)
  moreover have "sorted (map (distance_key date) (sort_key (distance_key date) dates))"
    by (rule sorted_sort_key)
  ultimately show ?thesis by (simp only:)
qed

lemma stable_by_abs_days:
  assumes "valid_date date" "\<forall>d \<in> set dates. valid_date d"
  shows "filter (\<lambda>d. abs_days date d = k) (sort_key (distance_key date) dates) =
         filter (\<lambda>d. abs_days date d = k) dates"
proof -
  have "filter (\<lambda>d. abs_days date d = k) (sort_key (distance_key date) dates) =
        filter (\<lambda>d. distance_key date d = k) (sort_key (distance_key date) dates)"
    using assms by (intro filter_cong refl) (simp add: distance_key_abs_days)
  also have "\<dots> = filter (\<lambda>d. distance_key date d = k) dates"
    by (rule sort_key_stable)
  also have "\<dots> = filter (\<lambda>d. abs_days date d = k) dates"
    using assms by (intro filter_cong refl) (simp add: distance_key_abs_days)
  finally show ?thesis .
qed

text \<open>
  Claim C7, as amended.  On a cache miss (for a request date and listed dates
  that \<^verbatim>\<open>strftime\<close> accepts, and an index that parses), the fetcher first
  opens the index of the defect type and then probes the listed dates in the
  order \<open>cand\<close>: the listed dates sorted by ascending absolute distance in
  days from the requested date, dates of equal distance in the order of the
  listing.  It probes the dates before the first one that responds, which
  all fail, and that one, and returns its bitmap; when none responds it probes
  every listed date and returns \<^verbatim>\<open>None\<close>.  The requested date is probed only
  as a member of the listing.
\<close>

theorem try_download_nearest_cal_probe_order:
  assumes miss: "pix_memo s (pix_url date pt det tb lr) = None"
    and year: "1900 \<le> year date"
    and valid: "valid_date date"
    and listing: "strptime_all (drop 5 (links w (darts @ pt @ ''/''))) = Inr dates"
    and years: "\<forall>d \<in> set dates. 1900 \<le> year d"
  shows "let cand = sort_key (distance_key date) dates;
             n = first_hit w pt det tb lr cand
         in sorted (map (abs_days date) cand) \<and>
            mset cand = mset dates \<and>
            (\<forall>k. filter (\<lambda>d. abs_days date d = k) cand = filter (\<lambda>d. abs_days date d = k) dates) \<and>
            (\<forall>i < n. http w (pix_url (cand ! i) pt det tb lr) = None) \<and>
            (\<exists>s'. try_download_nearest_cal w date pt det tb lr s =
                    (Inr (if n < length cand then http w (pix_url (cand ! n) pt det tb lr)
                          else None), s') \<and>
                  opened (requests s') =
                    opened (requests s) @
                    (darts @ pt @ ''/'') # map (\<lambda>d. pix_url d pt det tb lr) (take (Suc n) cand))"
proof -
  let ?cand = "sort_key (distance_key date) dates"
  let ?n = "first_hit w pt det tb lr ?cand"
  let ?s1 = "issue (Urlopen (darts @ pt @ ''/'')) s"
  from strptime_all_valid [OF listing] have vd: "\<forall>d \<in> set dates. valid_date d" .
  have 1: "sorted (map (abs_days date) ?cand)"
    using valid vd by (rule sorted_by_abs_days)
  have 2: "mset ?cand = mset dates" by simp
  have 3: "\<forall>k. filter (\<lambda>d. abs_days date d = k) ?cand = filter (\<lambda>d. abs_days date d = k) dates"
    using stable_by_abs_days [OF valid vd] by simp
  have 4: "\<forall>i < ?n. http w (pix_url (?cand ! i) pt det tb lr) = None"
    by (simp add: first_hit_fails)
  from years have "\<forall>d \<in> set ?cand. 1900 \<le> year d" by simp
  from probe_dates_run [OF this, of w "pix_url date pt det tb lr" pt det tb lr ?s1]
  obtain s' where
    run: "probe_dates w (pix_url date pt det tb lr) pt det tb lr ?cand ?s1 =
            (Inr (if ?n < length ?cand then http w (pix_url (?cand ! ?n) pt det tb lr)
                  else None), s')"
    and log: "opened (requests s') =
            opened (requests ?s1) @ map (\<lambda>d. pix_url d pt det tb lr) (take (Suc ?n) ?cand)"
    by blast
  have "try_download_nearest_cal w date pt det tb lr s =
          probe_dates w (pix_url date pt det tb lr) pt det tb lr ?cand ?s1"
    using miss listing
    by (simp add: try_download_nearest_cal_def construct_url_ok [OF year] get_cal_dates_run)
  with run log have 5: "\<exists>s'. try_download_nearest_cal w date pt det tb lr s =
                    (Inr (if ?n < length ?cand then http w (pix_url (?cand ! ?n) pt det tb lr)
                          else None), s') \<and>
                  opened (requests s') =
                    opened (requests s) @
                    (darts @ pt @ ''/'') # map (\<lambda>d. pix_url d pt det tb lr) (take (Suc ?n) ?cand)"
    by simp
  from 1 2 3 4 5 show ?thesis by (simp only: Let_def) blast
qed

text \<open>The definitions a concrete run unfolds.\<close>

lemmas date_eval = distance_key_def date_less_def toordinal_def days_before_year_def
  days_before_month_def is_leap_def valid_date_def days_in_month_def

lemmas url_eval = pix_url_def construct_hot_warm_pix_url_def darts_def strftime_ymd_def
  strftime_dby_lower_def pad2_def month_abbr_def str_nat.simps digit_char_def Let_def

lemmas parse_eval = strptime_def number_field_def day_field_def digits_val_def is_digit_def

lemmas fetch_eval = try_download_nearest_cal_def get_cal_dates_def get_dusty_array_def
  issue_def start_state_def example_archive_def first_hit_def

text \<open>
  The run on the example archive for 2015-01-10: the index is opened, then
  2015-01-08 (two days away, listed before 2015-01-12) and 2015-01-12.
\<close>

theorem try_download_nearest_cal_probe_order_witness:
  "\<exists>s'. try_download_nearest_cal example_archive \<lparr>year = 2015, month = 1, day = 10\<rparr>
            ''hp'' ''a'' ''top'' ''left'' start_state = (Inr (Some [[0, 1]]), s') \<and>
        opened (requests s') =
          [''http://darts.jaxa.jp/pub/ssw/solarb/eis/data/cal/hp/'',
           ''http://darts.jaxa.jp/pub/ssw/solarb/eis/data/cal/hp/2015-01-08/coords_a_left_08jan15_top.sav'',
           ''http://darts.jaxa.jp/pub/ssw/solarb/eis/data/cal/hp/2015-01-12/coords_a_left_12jan15_top.sav'']"
proof -
  let ?date = "\<lparr>year = 2015, month = 1, day = 10\<rparr>"
  let ?dates = "[\<lparr>year = 2015, month = 1, day = 3\<rparr>, \<lparr>year = 2015, month = 1, day = 8\<rparr>,
                 \<lparr>year = 2015, month = 1, day = 12\<rparr>]"
  let ?cand = "[\<lparr>year = 2015, month = 1, day = 8\<rparr>, \<lparr>year = 2015, month = 1, day = 12\<rparr>,
                \<lparr>year = 2015, month = 1, day = 3\<rparr>]"
  have miss: "pix_memo start_state (pix_url ?date ''hp'' ''a'' ''top'' ''left'') = None"
    by (simp add: start_state_def)
  have year: "1900 \<le> year ?date" by simp
  have valid: "valid_date ?date" by (simp add: valid_date_def days_in_month_def)
  have listing: "strptime_all (drop 5 (links example_archive (darts @ ''hp'' @ ''/''))) = Inr ?dates"
    by (simp add: fetch_eval url_eval parse_eval date_eval)
  have years: "\<forall>d \<in> set ?dates. 1900 \<le> year d" by simp
  have cand: "sort_key (distance_key ?date) ?dates = ?cand" by (simp add: date_eval)
  have n: "first_hit example_archive ''hp'' ''a'' ''top'' ''left'' ?cand = 1"
    by (simp add: fetch_eval url_eval)
  have hit: "http example_archive (pix_url (?cand ! 1) ''hp'' ''a'' ''top'' ''left'') = Some [[0, 1]]"
    by (simp add: fetch_eval url_eval)
  have urls: "(darts @ ''hp'' @ ''/'') #
      map (\<lambda>d. pix_url d ''hp'' ''a'' ''top'' ''left'') (take (Suc 1) ?cand) =
          [''http://darts.jaxa.jp/pub/ssw/solarb/eis/data/cal/hp/'',
           ''http://darts.jaxa.jp/pub/ssw/solarb/eis/data/cal/hp/2015-01-08/coords_a_left_08jan15_top.sav'',
           ''http://darts.jaxa.jp/pub/ssw/solarb/eis/data/cal/hp/2015-01-12/coords_a_left_12jan15_top.sav'']"
    by (simp add: url_eval)
  have start: "opened (requests start_state) = []" by (simp add: start_state_def)
  note T = try_download_nearest_cal_probe_order [OF miss year valid listing years,
      unfolded Let_def cand n]
  then obtain s' where
    "try_download_nearest_cal example_archive ?date ''hp'' ''a'' ''top'' ''left'' start_state =
       (Inr (if 1 < length ?cand
             then http example_archive (pix_url (?cand ! 1) ''hp'' ''a'' ''top'' ''left'')
             else None), s')"
    "opened (requests s') = opened (requests start_state) @
       (darts @ ''hp'' @ ''/'') #
       map (\<lambda>d. pix_url d ''hp'' ''a'' ''top'' ''left'') (take (Suc 1) ?cand)"
    by blast
  then show ?thesis
    unfolding urls start hit by simp
qed

text \<open>
  Claim C7 as stated fails: the fetcher does not attempt the requested date
  first.  On the example archive, which does not list 2015-01-10, the first
  request is the index, the dates probed are 2015-01-08 and 2015-01-12, and
  the URL of the requested date is never opened.
\<close>

theorem try_download_nearest_cal_skips_unlisted_date:
  "fst (try_download_nearest_cal example_archive \<lparr>year = 2015, month = 1, day = 10\<rparr>
          ''hp'' ''a'' ''top'' ''left'' start_state) = Inr (Some [[0, 1]]) \<and>
   requests (snd (try_download_nearest_cal example_archive \<lparr>year = 2015, month = 1, day = 10\<rparr>
          ''hp'' ''a'' ''top'' ''left'' start_state)) =
     [Urlopen ''http://darts.jaxa.jp/pub/ssw/solarb/eis/data/cal/hp/'',
      Urlopen ''http://darts.jaxa.jp/pub/ssw/solarb/eis/data/cal/hp/2015-01-08/coords_a_left_08jan15_top.sav'',
      Urlopen ''http://darts.jaxa.jp/pub/ssw/solarb/eis/data/cal/hp/2015-01-12/coords_a_left_12jan15_top.sav'',
      Urlretrieve ''http://darts.jaxa.jp/pub/ssw/solarb/eis/data/cal/hp/2015-01-12/coords_a_left_12jan15_top.sav''] \<and>
   pix_url \<lparr>year = 2015, month = 1, day = 10\<rparr> ''hp'' ''a'' ''top'' ''left'' =
     ''http://darts.jaxa.jp/pub/ssw/solarb/eis/data/cal/hp/2015-01-10/coords_a_left_10jan15_top.sav''"
  by (simp add: fetch_eval url_eval parse_eval date_eval)

lemma probe_dates_memo:
  "probe_dates w key pt det tb lr ds s = (Inr (Some arr), s') \<Longrightarrow> pix_memo s' key = Some arr"
proof (induction ds arbitrary: s)
  case Nil
  then show ?case by simp
next
  case (Cons d ds)
  then show ?case
    by (auto simp add: Let_def split: sum.splits option.splits)
qed

lemma probe_dates_memo_grows:
  "probe_dates w key pt det tb lr ds s = (r, s') \<Longrightarrow> pix_memo s key = None \<Longrightarrow>
   pix_memo s \<subseteq>\<^sub>m pix_memo s'"
proof (induction ds arbitrary: s)
  case Nil
  then show ?case by simp
next
  case (Cons d ds)
  show ?case
  proof (cases "construct_hot_warm_pix_url d pt det tb lr")
    case (Inl e)
    with Cons.prems show ?thesis by simp
  next
    case (Inr url)
    show ?thesis
    proof (cases "http w url")
      case None
      with Inr Cons.prems(1)
      have "probe_dates w key pt det tb lr ds (issue (Urlopen url) s) = (r, s')" by simp
      from Cons.IH [OF this] Cons.prems(2) show ?thesis by simp
    next
      case (Some arr)
      with Inr Cons.prems show ?thesis
        by (auto simp add: map_le_def)
    qed
  qed
qed

text \<open>A fetch only adds to the dictionary, so every later state holds what an earlier one held.\<close>

lemma try_download_nearest_cal_memo_grows:
  "try_download_nearest_cal w date pt det tb lr s = (r, s') \<Longrightarrow>
   pix_memo s \<subseteq>\<^sub>m pix_memo s'"
  by (auto simp add: try_download_nearest_cal_def get_cal_dates_run
      split: sum.splits option.splits dest: probe_dates_memo_grows)
text \<open>
  Claim C6, as amended.  For the hot and warm pixel maps (every map fetched
  by \<^verbatim>\<open>_try_download_nearest_cal\<close>): once a fetch has returned a bitmap, a
  fetch with the same arguments in any later state of the process, whose
  dictionary still holds what it held after the first fetch, returns the same
  bitmap and leaves the state as it is: it issues no request.
\<close>

theorem try_download_nearest_cal_memoized:
  assumes first: "try_download_nearest_cal w date pt det tb lr s = (Inr (Some arr), s1)"
    and later: "pix_memo s1 \<subseteq>\<^sub>m pix_memo s2"
  shows "try_download_nearest_cal w date pt det tb lr s2 = (Inr (Some arr), s2)"
proof -
  from first obtain key where
    key: "construct_hot_warm_pix_url date pt det tb lr = Inr key"
    by (auto simp add: try_download_nearest_cal_def split: sum.splits)
  have "pix_memo s1 key = Some arr"
  proof (cases "pix_memo s key")
    case None
    with first key show ?thesis
      by (auto simp add: try_download_nearest_cal_def get_cal_dates_run
          split: sum.splits dest: probe_dates_memo)
  next
    case (Some a)
    with first key show ?thesis
      by (simp add: try_download_nearest_cal_def)
  qed
  with later have "pix_memo s2 key = Some arr"
    by (auto simp add: map_le_def dom_def)
  with key show ?thesis
    by (simp add: try_download_nearest_cal_def)
qed

theorem try_download_nearest_cal_memoized_witness:
  "\<exists>s1. try_download_nearest_cal example_archive \<lparr>year = 2015, month = 1, day = 10\<rparr>
            ''hp'' ''a'' ''top'' ''left'' start_state = (Inr (Some [[0, 1]]), s1) \<and>
         try_download_nearest_cal example_archive \<lparr>year = 2015, month = 1, day = 10\<rparr>
            ''hp'' ''a'' ''top'' ''left'' s1 = (Inr (Some [[0, 1]]), s1) \<and>
         length (requests s1) = 4"
proof -
  let ?call = "try_download_nearest_cal example_archive \<lparr>year = 2015, month = 1, day = 10\<rparr>
            ''hp'' ''a'' ''top'' ''left''"
  have r: "fst (?call start_state) = Inr (Some [[0, 1]])"
    by (simp add: fetch_eval url_eval parse_eval date_eval)
  have n: "length (requests (snd (?call start_state))) = 4"
    by (simp add: fetch_eval url_eval parse_eval date_eval)
  from r have first: "?call start_state = (Inr (Some [[0, 1]]), snd (?call start_state))"
    by (metis prod.collapse)
  have later: "pix_memo (snd (?call start_state)) \<subseteq>\<^sub>m pix_memo (snd (?call start_state))"
    by simp
  from try_download_nearest_cal_memoized [OF first later] first n
  show ?thesis by blast
qed

text \<open>
  Claim C6 as stated fails for the dusty map: a second fetch of the same
  window, right after a first that succeeded, retrieves the file again.
\<close>

theorem get_dusty_array_not_memoized:
  "fst (get_dusty_array example_archive (0, 2) (0, 2) start_state) = Inr [[0, 0], [1, 0]] \<and>
   requests (snd (get_dusty_array example_archive (0, 2) (0, 2) start_state)) =
     [Urlretrieve ''http://darts.jaxa.jp/pub/ssw/solarb/eis/data/cal/dp/dusty_pixels.sav''] \<and>
   fst (get_dusty_array example_archive (0, 2) (0, 2)
          (snd (get_dusty_array example_archive (0, 2) (0, 2) start_state))) =
     Inr [[0, 0], [1, 0]] \<and>
   requests (snd (get_dusty_array example_archive (0, 2) (0, 2)
          (snd (get_dusty_array example_archive (0, 2) (0, 2) start_state)))) =
     [Urlretrieve ''http://darts.jaxa.jp/pub/ssw/solarb/eis/data/cal/dp/dusty_pixels.sav'',
      Urlretrieve ''http://darts.jaxa.jp/pub/ssw/solarb/eis/data/cal/dp/dusty_pixels.sav'']"
  by (simp add: fetch_eval url_eval py_slice_def slice_bound_def)

section \<open>Proofs: the defect-map compositor\<close>

lemma set_block_None:
  "set_block r0 r1 c0 c1 None g =
     Inr (write_block r0 r1 c0 c1 (replicate (r1 - r0) (replicate (c1 - c0) NaN)) g)"
  by (simp add: set_block_def block_rows_def)

lemma set_block_zero:
  "nr = r1 - r0 \<Longrightarrow> nc = c1 - c0 \<Longrightarrow>
   set_block r0 r1 c0 c1 (Some (replicate nr (replicate nc 0))) g =
     Inr (write_block r0 r1 c0 c1 (replicate nr (replicate nc (Num 0))) g)"
  by (simp add: set_block_def block_rows_def list_all_iff)

lemmas map_eval = download_calibration_data_def calculate_detectors_def date_le_def

lemma get_pixel_map_fst:
  assumes "fst (download_calibration_data w date pt det
             (fst (calculate_detectors date (fst yw) (snd yw - fst yw) (fst xw mod 2048)
                     (snd xw - fst xw)))
             (snd (calculate_detectors date (fst yw) (snd yw - fst yw) (fst xw mod 2048)
                     (snd xw - fst xw))) s) = Inr arrays"
    and "glue arrays = Inr g"
  shows "fst (get_pixel_map w date pt det yw xw s) =
           Inr (map (py_slice (fst xw mod 2048) (snd xw mod 2048))
                  (py_slice (fst yw) (snd yw) g))"
  using assms
  by (auto simp add: get_pixel_map_def Let_def split: prod.splits sum.splits)

lemma glue_right_absent:
  "glue (Map.empty(''top'' @ ''right'' \<mapsto> None, ''bottom'' @ ''right'' \<mapsto> None)) =
     Inr (replicate 512 (replicate 1024 (Num 0) @ replicate 1024 NaN) @
          replicate 512 (replicate 1024 (Num 0) @ replicate 1024 NaN))"
  apply (simp only: glue_def Let_def dict_get_def)
  apply (simp add: set_block_zero set_block_None)
  apply (simp add: write_block_def zeros_def)
  done

text \<open>
  Claim C3 (the code differs).  On the example archive no date has a
  top-right or a bottom-right hot-pixel file of detector a, so for the window
  rows 400 to 700, columns 1200 to 1300 on 2015-01-01 both fetches return
  \<^verbatim>\<open>None\<close>.  The compositor does not fail, but the dictionary holds \<^verbatim>\<open>None\<close>
  under the keys of the two tiles, so the default of \<^verbatim>\<open>arrays.get\<close> is not
  taken and the quadrants are filled with nan, not with zeros: every cell of
  the returned crop is nan.
\<close>

theorem get_pixel_map_absent_tile_is_nan:
  "fst (try_download_nearest_cal example_archive \<lparr>year = 2015, month = 1, day = 1\<rparr>
          ''hp'' ''a'' ''top'' ''right'' start_state) = Inr None \<and>
   fst (get_pixel_map example_archive \<lparr>year = 2015, month = 1, day = 1\<rparr> ''hp'' ''a''
          (400, 700) (1200, 1300) start_state) = Inr (replicate 300 (replicate 100 NaN))"
proof -
  let ?d = "\<lparr>year = 2015, month = 1, day = 1\<rparr>"
  have absent: "fst (try_download_nearest_cal example_archive ?d
          ''hp'' ''a'' ''top'' ''right'' start_state) = Inr None"
    by (simp add: fetch_eval url_eval parse_eval date_eval)
  let ?yw = "(400, 700) :: int \<times> int"
  let ?xw = "(1200, 1300) :: int \<times> int"
  have areas: "calculate_detectors ?d 400 (700 - 400) (1200 mod 2048) (1300 - 1200) =
                 (''both'', ''right'')"
    by (simp add: map_eval date_less_def)
  have dl: "fst (download_calibration_data example_archive ?d ''hp'' ''a'' ''both'' ''right''
                  start_state) =
            Inr (Map.empty(''top'' @ ''right'' \<mapsto> None, ''bottom'' @ ''right'' \<mapsto> None))"
    by (simp add: map_eval fetch_eval url_eval parse_eval date_eval)
  have rows: "replicate 300 (replicate 100 NaN) =
                replicate 112 (replicate 100 NaN) @ replicate 188 (replicate 100 NaN)"
    by (simp add: replicate_add [symmetric])
  have "fst (get_pixel_map example_archive ?d ''hp'' ''a'' ?yw ?xw start_state) =
          Inr (map (py_slice (fst ?xw mod 2048) (snd ?xw mod 2048))
                 (py_slice (fst ?yw) (snd ?yw)
                    (replicate 512 (replicate 1024 (Num 0) @ replicate 1024 NaN) @
                     replicate 512 (replicate 1024 (Num 0) @ replicate 1024 NaN))))"
    by (rule get_pixel_map_fst [OF _ glue_right_absent]) (simp only: fst_conv snd_conv areas dl)
  also have "\<dots> = Inr (replicate 300 (replicate 100 NaN))"
    unfolding rows by (simp add: py_slice_def slice_bound_def)
  finally show ?thesis using absent by simp
qed


lemma glue_bottom_right_absent:
  "glue (Map.empty(''bottom'' @ ''right'' \<mapsto> None)) =
     Inr (replicate 512 (replicate 1024 (Num 0) @ replicate 1024 (Num 0)) @
          replicate 512 (replicate 1024 (Num 0) @ replicate 1024 NaN))"
  apply (simp only: glue_def Let_def dict_get_def)
  apply (simp add: set_block_zero set_block_None)
  apply (simp add: write_block_def zeros_def)
  done

lemma py_slice_empty:
  assumes "0 \<le> hi" "hi \<le> lo"
  shows "py_slice lo hi xs = []"
  using assms by (simp add: py_slice_def slice_bound_def Let_def)

text \<open>
  Whenever the reduced end of the X range is not above its reduced start,
  every row of the crop is empty.
\<close>

lemma get_pixel_map_empty_rows:
  assumes "fst (get_pixel_map w date pt det yw xw s) = Inr crop"
    and "snd xw mod 2048 \<le> fst xw mod 2048"
  shows "\<forall>row \<in> set crop. row = []"
proof -
  have "0 \<le> snd xw mod 2048" by simp
  from py_slice_empty [OF this assms(2)] assms(1) show ?thesis
    by (auto simp add: get_pixel_map_def Let_def split: prod.splits sum.splits)
qed

text \<open>
  Claim C8 (the code differs).  The two ends of the X range are reduced modulo
  2048 separately.  For the full-CCD window of columns 1024 to 2048 the end
  becomes 0, and for the window of columns 2000 to 2100, which crosses the
  canvas width, it becomes 52: in both cases the column slice is empty, and
  the crop has the requested number of rows but no columns.
\<close>

theorem get_pixel_map_wrapped_window_is_empty:
  "fst (get_pixel_map example_archive \<lparr>year = 2015, month = 1, day = 1\<rparr> ''hp'' ''a''
          (0, 512) (1024, 2048) start_state) = Inr (replicate 512 []) \<and>
   fst (get_pixel_map example_archive \<lparr>year = 2015, month = 1, day = 1\<rparr> ''hp'' ''a''
          (0, 100) (2000, 2100) start_state) = Inr (replicate 100 [])"
proof -
  let ?d = "\<lparr>year = 2015, month = 1, day = 1\<rparr>"
  let ?g = "replicate 512 (replicate 1024 (Num 0) @ replicate 1024 (Num 0)) @
            replicate 512 (replicate 1024 (Num 0) @ replicate 1024 NaN)"
  have dl: "fst (download_calibration_data example_archive ?d ''hp'' ''a'' ''bottom'' ''right''
                  start_state) = Inr (Map.empty(''bottom'' @ ''right'' \<mapsto> None))"
    by (simp add: map_eval fetch_eval url_eval parse_eval date_eval)
  let ?yw = "(0, 512) :: int \<times> int"
  let ?xw = "(1024, 2048) :: int \<times> int"
  have areas: "calculate_detectors ?d 0 (512 - 0) (1024 mod 2048) (2048 - 1024) =
                 (''bottom'', ''right'')"
    by (simp add: map_eval date_less_def)
  have "fst (get_pixel_map example_archive ?d ''hp'' ''a'' ?yw ?xw start_state) =
          Inr (map (py_slice (fst ?xw mod 2048) (snd ?xw mod 2048))
                 (py_slice (fst ?yw) (snd ?yw) ?g))"
    by (rule get_pixel_map_fst [OF _ glue_bottom_right_absent])
      (simp only: fst_conv snd_conv areas dl)
  also have "\<dots> = Inr (replicate 512 [])"
    by (simp add: py_slice_def slice_bound_def)
  finally have 1: "fst (get_pixel_map example_archive ?d ''hp'' ''a'' ?yw ?xw start_state) =
                     Inr (replicate 512 [])" .
  let ?yw' = "(0, 100) :: int \<times> int"
  let ?xw' = "(2000, 2100) :: int \<times> int"
  have areas': "calculate_detectors ?d 0 (100 - 0) (2000 mod 2048) (2100 - 2000) =
                 (''bottom'', ''right'')"
    by (simp add: map_eval date_less_def)
  have "fst (get_pixel_map example_archive ?d ''hp'' ''a'' ?yw' ?xw' start_state) =
          Inr (map (py_slice (fst ?xw' mod 2048) (snd ?xw' mod 2048))
                 (py_slice (fst ?yw') (snd ?yw') ?g))"
    by (rule get_pixel_map_fst [OF _ glue_bottom_right_absent])
      (simp only: fst_conv snd_conv areas' dl)
  also have "\<dots> = Inr (replicate 100 [])"
    by (simp add: py_slice_def slice_bound_def)
  finally have 2: "fst (get_pixel_map example_archive ?d ''hp'' ''a'' ?yw' ?xw' start_state) =
                     Inr (replicate 100 [])" .
  from 1 2 show ?thesis by simp
qed


end
